theory Spec2Isabelle
  imports Main "HOL-Library.Word"
begin

unbundle bit_operations_syntax

section \<open>Bytes, hexadecimal strings and big numbers\<close>

text \<open>
  A JavaScript \<open>Buffer\<close> is a list of bytes. An ethers \<open>BigNumber\<close> or a \<open>BN\<close>
  that holds a quantity (amount, packed data word, gas) is a natural number, and the
  bitwise methods \<open>and\<close>, \<open>or\<close>, \<open>shl\<close>, \<open>shr\<close> are \<open>AND\<close>, \<open>OR\<close>,
  \<open>push_bit\<close>, \<open>drop_bit\<close>. Values read from a contract slot are 256-bit words.
  JavaScript numbers that hold heights, counts and timestamps are integers.
\<close>

type_synonym byte = "8 word"
type_synonym Buffer = "byte list"
type_synonym uint256 = "256 word"

datatype error =
    SignatureVerificationError string
  | Error string

text \<open>The lower-case hexadecimal digit of a value below 16.\<close>

definition hexDigit :: "nat \<Rightarrow> char" where
  "hexDigit n = (if n < 10 then char_of (48 + n) else char_of (87 + n))"

text \<open>The value of a hexadecimal digit, of either case.\<close>

definition hexValue :: "char \<Rightarrow> nat option" where
  "hexValue c =
     (let n = (of_char c :: nat) in
      if 48 \<le> n \<and> n \<le> 57 then Some (n - 48)
      else if 97 \<le> n \<and> n \<le> 102 then Some (n - 87)
      else if 65 \<le> n \<and> n \<le> 70 then Some (n - 55)
      else None)"

text \<open>\<open>BN.toString(16)\<close> of a non-negative number: no leading zeros, \<open>"0"\<close> for zero.\<close>

fun toString16 :: "nat \<Rightarrow> string" where
  "toString16 n =
     (if n < 16 then [hexDigit n] else toString16 (n div 16) @ [hexDigit (n mod 16)])"

declare toString16.simps [simp del]

text \<open>\<open>String.prototype.padStart\<close> with a one-character filler.\<close>

definition padStart :: "nat \<Rightarrow> char \<Rightarrow> string \<Rightarrow> string" where
  "padStart k c s = replicate (k - length s) c @ s"

text \<open>
  \<open>Buffer.from(s, 'hex')\<close>: one byte per pair of hexadecimal digits; decoding stops at
  the first pair that is not hexadecimal, and a trailing single digit is dropped.
\<close>

fun Buffer_from_hex :: "string \<Rightarrow> Buffer" where
  "Buffer_from_hex (a # b # rest) =
     (case (hexValue a, hexValue b) of
        (Some x, Some y) \<Rightarrow> of_nat (16 * x + y) # Buffer_from_hex rest
      | _ \<Rightarrow> [])"
| "Buffer_from_hex _ = []"

text \<open>\<open>buf.toString('hex')\<close>: two lower-case digits per byte.\<close>

definition Buffer_toString_hex :: "Buffer \<Rightarrow> string" where
  "Buffer_toString_hex bs =
     concat (map (\<lambda>b. [hexDigit (unat b div 16), hexDigit (unat b mod 16)]) bs)"

text \<open>
  ethers \<open>arrayify\<close> of a hex string: the string must be \<open>0x\<close> followed by an even
  number of hexadecimal digits, otherwise the library throws.
\<close>

definition isHexDigit :: "char \<Rightarrow> bool" where
  "isHexDigit c \<longleftrightarrow> hexValue c \<noteq> None"

definition isHexString :: "string \<Rightarrow> bool" where
  "isHexString s \<longleftrightarrow> take 2 s = ''0x'' \<and> list_all isHexDigit (drop 2 s)"

definition arrayify :: "string \<Rightarrow> error + Buffer" where
  "arrayify s =
     (if isHexString s \<and> even (length s) then Inr (Buffer_from_hex (drop 2 s))
      else Inl (Error ''invalid arrayify value''))"

definition hexlify :: "Buffer \<Rightarrow> string" where
  "hexlify bs = ''0x'' @ Buffer_toString_hex bs"

text \<open>
  \<open>utils.solidityKeccak256(['bytes'], [s])\<close>: the digest of the bytes that the hex string
  \<open>s\<close> denotes, as a \<open>0x\<close> hex string. The hash function itself is a parameter.
\<close>

definition solidityKeccak256_bytes :: "(Buffer \<Rightarrow> Buffer) \<Rightarrow> string \<Rightarrow> error + string" where
  "solidityKeccak256_bytes keccak256 s =
     (case arrayify s of
        Inl e \<Rightarrow> Inl e
      | Inr bs \<Rightarrow> Inr (hexlify (keccak256 bs)))"

text \<open>\<open>BigNumber.toHexString\<close>: \<open>0x\<close> and an even number of digits.\<close>

definition toHexString :: "nat \<Rightarrow> string" where
  "toHexString n =
     (let h = toString16 n in ''0x'' @ (if odd (length h) then CHR ''0'' # h else h))"

text \<open>\<open>String.prototype.toLowerCase\<close> on ASCII text (addresses are hex strings).\<close>

definition toLowerChar :: "char \<Rightarrow> char" where
  "toLowerChar c =
     (let n = (of_char c :: nat) in if 65 \<le> n \<and> n \<le> 90 then char_of (n + 32) else c)"

definition toLowerCase :: "string \<Rightarrow> string" where
  "toLowerCase s = map toLowerChar s"

text \<open>
  Fixed-width encodings of an unsigned number, written from the wire format: \<open>k\<close> bytes,
  most significant first (\<open>uint_be\<close>) or least significant first (\<open>uint_le\<close>).
\<close>

primrec uint_be :: "nat \<Rightarrow> nat \<Rightarrow> Buffer" where
  "uint_be 0 n = []"
| "uint_be (Suc k) n = uint_be k (n div 256) @ [of_nat (n mod 256)]"

primrec uint_le :: "nat \<Rightarrow> nat \<Rightarrow> Buffer" where
  "uint_le 0 n = []"
| "uint_le (Suc k) n = of_nat (n mod 256) # uint_le k (n div 256)"

text \<open>The number a buffer denotes when read most significant byte first.\<close>

definition bufferValue :: "Buffer \<Rightarrow> nat" where
  "bufferValue bs = foldl (\<lambda>acc b. 256 * acc + unat b) 0 bs"

text \<open>The \<open>k\<close> low hexadecimal digits of a number, most significant first.\<close>

primrec hexDigits :: "nat \<Rightarrow> nat \<Rightarrow> string" where
  "hexDigits 0 n = []"
| "hexDigits (Suc k) n = hexDigits k (n div 16) @ [hexDigit (n mod 16)]"


section \<open>Swap data: the packed 256-bit data field\<close>

record EVMSwapData =
  offerer :: string
  claimer :: string
  token :: string
  amount :: nat
  paymentHash :: string
  data :: nat
  securityDeposit :: nat
  claimerBounty :: nat
  txoHash :: "string option"

text \<open>
  The positional constructor of \<open>EVMSwapData\<close>. A missing \<open>expiry\<close>, \<open>nonce\<close> or
  \<open>confirmations\<close> is replaced by 0 in the source, and a missing flag counts as false,
  so those arguments are passed here as 0 and \<open>False\<close>.
\<close>

definition EVMSwapData_new ::
  "string \<Rightarrow> string \<Rightarrow> string \<Rightarrow> nat \<Rightarrow> string \<Rightarrow> nat \<Rightarrow> nat \<Rightarrow> nat \<Rightarrow> nat \<Rightarrow> bool \<Rightarrow> bool
     \<Rightarrow> nat \<Rightarrow> nat \<Rightarrow> nat \<Rightarrow> string option \<Rightarrow> EVMSwapData" where
  "EVMSwapData_new offerer' claimer' token' amount' paymentHash' expiry nonce confirmations
       kind payIn payOut securityDeposit' claimerBounty' index txoHash' =
     \<lparr> offerer = offerer',
       claimer = claimer',
       token = token',
       amount = amount',
       paymentHash = paymentHash',
       data =
         (expiry AND 0xFFFFFFFFFFFFFFFF)
           OR push_bit 64 (nonce AND 0xFFFFFFFFFFFFFFFF)
           OR push_bit 128 (confirmations AND 0xffff)
           OR push_bit 144 (kind AND 0xff)
           OR push_bit 152 ((if payIn then 1 else 0) AND 0xff)
           OR push_bit 160 ((if payOut then 1 else 0) AND 0xff)
           OR push_bit 168 (index AND 0xff),
       securityDeposit = securityDeposit',
       claimerBounty = claimerBounty',
       txoHash = txoHash' \<rparr>"

definition getKind :: "EVMSwapData \<Rightarrow> nat" where
  "getKind s = drop_bit 144 (data s) AND 0xff"

definition getExpiry :: "EVMSwapData \<Rightarrow> nat" where
  "getExpiry s = data s AND 0xFFFFFFFFFFFFFFFF"

definition getConfirmations :: "EVMSwapData \<Rightarrow> nat" where
  "getConfirmations s = drop_bit 128 (data s) AND 0xffff"

definition getEscrowNonce :: "EVMSwapData \<Rightarrow> nat" where
  "getEscrowNonce s = drop_bit 64 (data s) AND 0xFFFFFFFFFFFFFFFF"

definition isPayIn :: "EVMSwapData \<Rightarrow> bool" where
  "isPayIn s \<longleftrightarrow> drop_bit 152 (data s) AND 0xFF > 0"

definition setPayIn :: "bool \<Rightarrow> EVMSwapData \<Rightarrow> EVMSwapData" where
  "setPayIn payIn s =
     s\<lparr> data :=
          (data s AND 0x00000000000000000000FFFF00FFFFFFFFFFFFFFFFFFFFFFFFFFFFFFFFFFFFFF)
            OR push_bit 152 (if payIn then 1 else 0) \<rparr>"

definition isPayOut :: "EVMSwapData \<Rightarrow> bool" where
  "isPayOut s \<longleftrightarrow> drop_bit 160 (data s) AND 0xFF > 0"

definition setPayOut :: "bool \<Rightarrow> EVMSwapData \<Rightarrow> EVMSwapData" where
  "setPayOut payOut s =
     s\<lparr> data :=
          (data s AND 0x00000000000000000000FF00FFFFFFFFFFFFFFFFFFFFFFFFFFFFFFFFFFFFFFFF)
            OR push_bit 160 (if payOut then 1 else 0) \<rparr>"

definition getIndex :: "EVMSwapData \<Rightarrow> nat" where
  "getIndex s = drop_bit 168 (data s) AND 0xFF"


section \<open>The swap program\<close>

datatype SwapCommitStatus = PAID | COMMITED | REFUNDABLE | EXPIRED | NOT_COMMITED

text \<open>
  The state an \<open>EVMSwapProgram\<close> works against: its own address, the clock
  (\<open>Date.now()\<close>, in milliseconds), the commitment slots of the swap contract
  (\<open>getCommitment\<close> returns the 32-byte slot as a hex string, which the program reads
  as a number and compares with the commit hash: both are the 256-bit value here), and the
  calls into the ethers library whose results the program only compares and passes on:
  \<^item> \<open>abiCommitHash\<close>: \<open>EVMSwapData.getCommitHash\<close>, the keccak digest of the ABI
    encoding of the swap tuple, as a 32-byte value;
  \<^item> \<open>messageDigest\<close>: the digest that \<open>getMessage\<close> computes from the prefix, the
    commit hash and the timeout (\<open>solidityPack\<close> then \<open>solidityKeccak256\<close>);
  \<^item> \<open>verifyMessage\<close>: \<open>utils.verifyMessage\<close>, the address recovered from a
    personal-message signature.
  The last two throw a plain \<open>Error\<close> on malformed input (a timeout that does not fit
  64 bits, a signature of the wrong length); \<open>Inl\<close> carries its message.
\<close>

record EVMSwapProgram =
  address :: string
  Date_now :: int
  getCommitment :: "string \<Rightarrow> uint256"
  abiCommitHash :: "EVMSwapData \<Rightarrow> uint256"
  messageDigest :: "string \<Rightarrow> uint256 \<Rightarrow> int \<Rightarrow> string + Buffer"
  verifyMessage :: "Buffer \<Rightarrow> string \<Rightarrow> string + string"

definition claimGracePeriod :: int where
  "claimGracePeriod = 10 * 60"

definition refundGracePeriod :: int where
  "refundGracePeriod = 10 * 60"

definition authGracePeriod :: int where
  "authGracePeriod = 5 * 60"

text \<open>\<open>Math.floor(Date.now() / 1000)\<close>.\<close>

definition currentSeconds :: "EVMSwapProgram \<Rightarrow> int" where
  "currentSeconds p = Date_now p div 1000"

definition getHashForOnchain ::
  "(Buffer \<Rightarrow> Buffer) \<Rightarrow> Buffer \<Rightarrow> nat \<Rightarrow> nat \<Rightarrow> error + Buffer" where
  "getHashForOnchain keccak256 outputScript amount' nonce =
     (let amountBuffer = rev (Buffer_from_hex (padStart 16 CHR ''0'' (toString16 amount')))
      in case solidityKeccak256_bytes keccak256
                (''0x'' @ Buffer_toString_hex (amountBuffer @ outputScript)) of
           Inl e \<Rightarrow> Inl e
         | Inr txoHash' \<Rightarrow>
             (let nonceHexString = padStart 16 CHR ''0'' (toString16 nonce)
              in case solidityKeccak256_bytes keccak256
                        (''0x'' @ nonceHexString @ drop 2 txoHash') of
                   Inl e \<Rightarrow> Inl e
                 | Inr hash' \<Rightarrow> Inr (Buffer_from_hex (drop 2 hash'))))"

definition areWeClaimer :: "EVMSwapProgram \<Rightarrow> EVMSwapData \<Rightarrow> bool" where
  "areWeClaimer p swapData \<longleftrightarrow> claimer swapData = address p"

definition areWeOfferer :: "EVMSwapProgram \<Rightarrow> EVMSwapData \<Rightarrow> bool" where
  "areWeOfferer p swapData \<longleftrightarrow> offerer swapData = address p"

definition isExpired :: "EVMSwapProgram \<Rightarrow> EVMSwapData \<Rightarrow> bool" where
  "isExpired p d =
     (let currentTimestamp0 = (0 :: int);
          currentTimestamp1 =
            (if areWeOfferer p d then currentSeconds p - refundGracePeriod
             else currentTimestamp0);
          currentTimestamp =
            (if areWeClaimer p d then currentSeconds p + claimGracePeriod
             else currentTimestamp1)
      in int (getExpiry d) < currentTimestamp)"

definition getCommitStatus :: "EVMSwapProgram \<Rightarrow> EVMSwapData \<Rightarrow> SwapCommitStatus" where
  "getCommitStatus p d =
     (let commitedHash = getCommitment p (paymentHash d);
          commitNum = unat commitedHash
      in if commitNum = 0x100 then PAID
         else if commitNum < 0x100 then
           (if isExpired p d then EXPIRED else NOT_COMMITED)
         else if commitedHash = abiCommitHash p d then
           (if areWeOfferer p d \<and> isExpired p d then REFUNDABLE else COMMITED)
         else
           (if areWeOfferer p d \<and> isExpired p d then EXPIRED else NOT_COMMITED))"

text \<open>
  The timeout of an authorization is a decimal string in the source; \<open>timeout\<close> below is
  the number it denotes (\<open>new BN(timeout)\<close>).
\<close>

definition getMessage :: "EVMSwapProgram \<Rightarrow> EVMSwapData \<Rightarrow> string \<Rightarrow> int \<Rightarrow> string + Buffer" where
  "getMessage p swapData prefix timeout = messageDigest p prefix (abiCommitHash p swapData) timeout"

definition getClaimInitMessage ::
  "EVMSwapProgram \<Rightarrow> EVMSwapData \<Rightarrow> nat \<Rightarrow> string \<Rightarrow> int \<Rightarrow> string + Buffer" where
  "getClaimInitMessage p swapData nonce prefix timeout = getMessage p swapData prefix timeout"

definition getInitMessage ::
  "EVMSwapProgram \<Rightarrow> EVMSwapData \<Rightarrow> nat \<Rightarrow> string \<Rightarrow> int \<Rightarrow> string + Buffer" where
  "getInitMessage p swapData nonce prefix timeout = getMessage p swapData prefix timeout"

definition getRefundMessage ::
  "EVMSwapProgram \<Rightarrow> EVMSwapData \<Rightarrow> string \<Rightarrow> int \<Rightarrow> string + Buffer" where
  "getRefundMessage p swapData prefix timeout = getMessage p swapData prefix timeout"

definition isValidClaimInitAuthorization ::
  "EVMSwapProgram \<Rightarrow> EVMSwapData \<Rightarrow> int \<Rightarrow> string \<Rightarrow> string \<Rightarrow> nat \<Rightarrow> error + Buffer" where
  "isValidClaimInitAuthorization p d timeout prefix signature nonce =
     (if prefix \<noteq> ''claim_initialize'' then Inl (SignatureVerificationError ''Invalid prefix'')
      else
        let expiryTimestamp = timeout;
            currentTimestamp = currentSeconds p;
            isExpired' = (expiryTimestamp - currentTimestamp < authGracePeriod)
        in if isExpired' then Inl (SignatureVerificationError ''Authorization expired!'')
           else if unat (getCommitment p (paymentHash d)) \<noteq> getIndex d
             then Inl (SignatureVerificationError ''Invalid nonce!'')
           else
             (case getClaimInitMessage p d nonce prefix timeout of
                Inl msg \<Rightarrow> Inl (Error msg)
              | Inr messageBuffer \<Rightarrow>
                  (case verifyMessage p messageBuffer signature of
                     Inl msg \<Rightarrow> Inl (Error msg)
                   | Inr recoveredAddress \<Rightarrow>
                       if toLowerCase recoveredAddress \<noteq> toLowerCase (claimer d)
                       then Inl (SignatureVerificationError ''Invalid signature!'')
                       else Inr messageBuffer)))"

definition isValidInitAuthorization ::
  "EVMSwapProgram \<Rightarrow> EVMSwapData \<Rightarrow> int \<Rightarrow> string \<Rightarrow> string \<Rightarrow> nat \<Rightarrow> error + Buffer" where
  "isValidInitAuthorization p d timeout prefix signature nonce =
     (if prefix \<noteq> ''initialize'' then Inl (SignatureVerificationError ''Invalid prefix'')
      else
        let expiryTimestamp = timeout;
            currentTimestamp = currentSeconds p;
            isExpired' = (expiryTimestamp - currentTimestamp < authGracePeriod)
        in if isExpired' then Inl (SignatureVerificationError ''Authorization expired!'')
           else if int (getExpiry d) - currentTimestamp < authGracePeriod + claimGracePeriod
             then Inl (SignatureVerificationError ''Swap will expire too soon!'')
           else if unat (getCommitment p (paymentHash d)) \<noteq> getIndex d
             then Inl (SignatureVerificationError ''Invalid nonce!'')
           else
             (case getInitMessage p d nonce prefix timeout of
                Inl msg \<Rightarrow> Inl (Error msg)
              | Inr messageBuffer \<Rightarrow>
                  (case verifyMessage p messageBuffer signature of
                     Inl msg \<Rightarrow> Inl (Error msg)
                   | Inr recoveredAddress \<Rightarrow>
                       if toLowerCase recoveredAddress \<noteq> toLowerCase (offerer d)
                       then Inl (SignatureVerificationError ''Invalid signature!'')
                       else Inr messageBuffer)))"

definition isValidRefundAuthorization ::
  "EVMSwapProgram \<Rightarrow> EVMSwapData \<Rightarrow> int \<Rightarrow> string \<Rightarrow> string \<Rightarrow> error + Buffer" where
  "isValidRefundAuthorization p swapData timeout prefix signature =
     (if prefix \<noteq> ''refund'' then Inl (SignatureVerificationError ''Invalid prefix'')
      else
        let expiryTimestamp = timeout;
            currentTimestamp = currentSeconds p;
            isExpired' = (expiryTimestamp - currentTimestamp < authGracePeriod)
        in if isExpired' then Inl (SignatureVerificationError ''Authorization expired!'')
           else
             (case getRefundMessage p swapData prefix timeout of
                Inl msg \<Rightarrow> Inl (Error msg)
              | Inr messageBuffer \<Rightarrow>
                  (case verifyMessage p messageBuffer signature of
                     Inl msg \<Rightarrow> Inl (Error msg)
                   | Inr recoveredAddress \<Rightarrow>
                       if toLowerCase recoveredAddress \<noteq> toLowerCase (claimer swapData)
                       then Inl (SignatureVerificationError ''Invalid signature!'')
                       else Inr messageBuffer)))"


section \<open>The BTC relay client\<close>

text \<open>A Bitcoin block as the RPC reports it (the getters of \<open>BtcBlock\<close>).\<close>

record BtcBlock =
  getVersion :: nat
  getPrevBlockhash :: string
  getMerkleRoot :: string
  getTimestamp :: nat
  getNbits :: nat
  getNonce :: nat
  getHash :: string

record EVMBtcHeader =
  version :: nat
  reversedPrevBlockhash :: Buffer
  merkleRoot :: Buffer
  timestamp :: nat
  nbits :: nat
  nonce :: nat
  hash :: Buffer

definition serializeBlockHeader :: "BtcBlock \<Rightarrow> EVMBtcHeader" where
  "serializeBlockHeader e =
     \<lparr> version = getVersion e,
       reversedPrevBlockhash = rev (Buffer_from_hex (getPrevBlockhash e)),
       merkleRoot = rev (Buffer_from_hex (getMerkleRoot e)),
       timestamp = getTimestamp e,
       nbits = getNbits e,
       nonce = getNonce e,
       hash = rev (Buffer_from_hex (getHash e)) \<rparr>"

text \<open>
  The stored header class is used through three of its methods only, which are parameters
  here: \<open>computeNext\<close> (the next stored header, from a raw header), \<open>getChainWork\<close> (the
  cumulative work, a 32-byte big-endian buffer) and the raw header's \<open>serialize\<close>.
\<close>

record 'sh HeaderCodec =
  computeNext :: "'sh \<Rightarrow> EVMBtcHeader \<Rightarrow> 'sh"
  getChainWork :: "'sh \<Rightarrow> Buffer"
  serialize :: "EVMBtcHeader \<Rightarrow> Buffer"

text \<open>
  Modelled from the spec: \<open>StatePredictorUtils.gtBuffer\<close> belongs to the base package,
  which is not among the sources. The spec gives the promotion test as
  \<open>last.chain_work > tip_work\<close>, a comparison of the two numbers.
\<close>

definition gtBuffer :: "Buffer \<Rightarrow> Buffer \<Rightarrow> bool" where
  "gtBuffer a b \<longleftrightarrow> bufferValue a > bufferValue b"

record FeeData =
  lastBaseFeePerGas :: "nat option"
  gasPrice :: "nat option"

text \<open>
  What the relay client reads: the packed tip slot, the fork counter and the latest
  main-chain commitment of the relay contract, and the provider's fee data
  (\<open>None\<close> when \<open>getFeeData\<close> throws) and legacy gas price.
\<close>

record EVMBtcRelay =
  highScoreAndBlockHeight :: uint256
  forkCounter :: nat
  getLatestMainChainCommitmentHash :: string
  getFeeData :: "FeeData option"
  getGasPrice :: nat
  useEip1559ForFeeEstimate :: bool

definition GAS_PER_BLOCKHEADER :: int where
  "GAS_PER_BLOCKHEADER = 35000"

text \<open>An unsigned transaction: the contract method, its arguments and the gas limit.\<close>

record 'sh UnsignedTransaction =
  contractMethod :: string
  headersData :: string
  forkArg :: "nat option"
  storedArg :: 'sh
  gasLimit :: nat

record 'sh SaveHeadersResult =
  forkId :: nat
  lastStoredHeader :: 'sh
  tx :: "'sh UnsignedTransaction"
  computedCommitedHeaders :: "'sh list"

text \<open>
  The precomputation loop shared by the three \<open>save...Headers\<close> methods: each raw header
  appends \<open>computeNext\<close> of the last element so far.
\<close>

definition precompute :: "'sh HeaderCodec \<Rightarrow> 'sh \<Rightarrow> EVMBtcHeader list \<Rightarrow> 'sh list" where
  "precompute codec storedHeader blockHeaderObj =
     foldl (\<lambda>computed blockHeader. computed @ [computeNext codec (last computed) blockHeader])
       [storedHeader] blockHeaderObj"

definition saveNewForkHeaders ::
  "EVMBtcRelay \<Rightarrow> 'sh HeaderCodec \<Rightarrow> BtcBlock list \<Rightarrow> 'sh \<Rightarrow> Buffer \<Rightarrow> 'sh SaveHeadersResult" where
  "saveNewForkHeaders r codec forkHeaders storedHeader tipWork =
     (let blockHeaderObj = map serializeBlockHeader forkHeaders;
          forkId0 = forkCounter r;
          unsignedTx =
            \<lparr> contractMethod = ''submitNewForkChainHeaders'',
              headersData = ''0x'' @ Buffer_toString_hex (concat (map (serialize codec) blockHeaderObj)),
              forkArg = None,
              storedArg = storedHeader,
              gasLimit = 200000 + 100000 * length forkHeaders \<rparr>;
          computed = precompute codec storedHeader blockHeaderObj;
          changedCommitedHeader = last computed;
          forkId1 = (if gtBuffer (getChainWork codec changedCommitedHeader) tipWork then 0 else forkId0)
      in \<lparr> forkId = forkId1,
           lastStoredHeader = changedCommitedHeader,
           tx = unsignedTx,
           computedCommitedHeaders = computed \<rparr>)"

definition saveForkHeaders ::
  "EVMBtcRelay \<Rightarrow> 'sh HeaderCodec \<Rightarrow> BtcBlock list \<Rightarrow> 'sh \<Rightarrow> nat \<Rightarrow> Buffer \<Rightarrow> 'sh SaveHeadersResult" where
  "saveForkHeaders r codec forkHeaders storedHeader forkId' tipWork =
     (let blockHeaderObj = map serializeBlockHeader forkHeaders;
          unsignedTx =
            \<lparr> contractMethod = ''submitForkChainHeaders'',
              headersData = ''0x'' @ Buffer_toString_hex (concat (map (serialize codec) blockHeaderObj)),
              forkArg = Some forkId',
              storedArg = storedHeader,
              gasLimit = 200000 + 100000 * length forkHeaders \<rparr>;
          computed = precompute codec storedHeader blockHeaderObj;
          changedCommitedHeader = last computed;
          forkId1 = (if gtBuffer (getChainWork codec changedCommitedHeader) tipWork then 0 else forkId')
      in \<lparr> forkId = forkId1,
           lastStoredHeader = changedCommitedHeader,
           tx = unsignedTx,
           computedCommitedHeaders = computed \<rparr>)"

record TipData =
  commitHash :: string
  chainWork :: Buffer
  blockheight :: nat

definition getTipData :: "EVMBtcRelay \<Rightarrow> TipData option" where
  "getTipData r =
     (let hs = unat (highScoreAndBlockHeight r);
          chainWork' =
            Buffer_from_hex
              (padStart 64 CHR ''0''
                 (drop 2 (toHexString
                    (hs AND 0x00000000FFFFFFFFFFFFFFFFFFFFFFFFFFFFFFFFFFFFFFFFFFFFFFFFFFFFFFFF))));
          blockheight' = drop_bit 224 hs
      in if blockheight' = 0 then None
         else Some \<lparr> commitHash = drop 2 (getLatestMainChainCommitmentHash r),
                     chainWork = chainWork',
                     blockheight = blockheight' \<rparr>)"

definition estimateSynchronizeFee :: "EVMBtcRelay \<Rightarrow> int \<Rightarrow> int" where
  "estimateSynchronizeFee r requiredBlockheight =
     (let currBlockheight = int (drop_bit 224 (unat (highScoreAndBlockHeight r)));
          blockheightDelta = requiredBlockheight - currBlockheight
      in if blockheightDelta \<le> 0 then 0
         else
           let totalGas = blockheightDelta * GAS_PER_BLOCKHEADER;
               gasPrice0 =
                 (if useEip1559ForFeeEstimate r then
                    (case getFeeData r of
                       None \<Rightarrow> None
                     | Some gasPriceData \<Rightarrow>
                         (case lastBaseFeePerGas gasPriceData of
                            Some b \<Rightarrow> Some b
                          | None \<Rightarrow> gasPrice gasPriceData))
                  else None);
               gasPrice1 = (case gasPrice0 of None \<Rightarrow> getGasPrice r | Some g \<Rightarrow> g)
           in totalGas * int gasPrice1)"

text \<open>
  The gas price as the interface describes it: the EIP-1559 base fee when fee data with a
  base fee is available, else the fee data's gas price, else the legacy gas price.
\<close>

definition preferredGasPrice :: "EVMBtcRelay \<Rightarrow> nat" where
  "preferredGasPrice r =
     (if useEip1559ForFeeEstimate r then
        (case getFeeData r of
           None \<Rightarrow> getGasPrice r
         | Some fd \<Rightarrow>
             (if lastBaseFeePerGas fd \<noteq> None then the (lastBaseFeePerGas fd)
              else if gasPrice fd \<noteq> None then the (gasPrice fd)
              else getGasPrice r))
      else getGasPrice r)"

text \<open>
  The chain of stored headers as the interface describes it: the previous stored header,
  followed by the result of applying \<open>computeNext\<close> once per raw header, in order.
\<close>

fun headerChain :: "'sh HeaderCodec \<Rightarrow> 'sh \<Rightarrow> EVMBtcHeader list \<Rightarrow> 'sh list" where
  "headerChain codec prev [] = [prev]"
| "headerChain codec prev (h # hs) = prev # headerChain codec (computeNext codec prev h) hs"


section \<open>Auxiliary definitions and sample inputs\<close>

text \<open>
  The packed data word with each mask written as a truncation: what the constructor
  computes, in the form the bit-level lemmas work on.
\<close>

definition packedFields :: "nat \<Rightarrow> nat \<Rightarrow> nat \<Rightarrow> nat \<Rightarrow> bool \<Rightarrow> bool \<Rightarrow> nat \<Rightarrow> nat" where
  "packedFields e n c k pi po i =
     take_bit 64 e OR push_bit 64 (take_bit 64 n) OR push_bit 128 (take_bit 16 c)
       OR push_bit 144 (take_bit 8 k) OR push_bit 152 (of_bool pi) OR push_bit 160 (of_bool po)
       OR push_bit 168 (take_bit 8 i)"

text \<open>Concrete inputs on which the theorems below are instantiated.\<close>

definition offererAddress :: string where
  "offererAddress = ''0x1111111111111111111111111111111111111111''"

definition claimerAddress :: string where
  "claimerAddress = ''0x2222222222222222222222222222222222222222''"

definition sampleSwap :: EVMSwapData where
  "sampleSwap =
     EVMSwapData_new offererAddress claimerAddress ''0x0000000000000000000000000000000000000000''
       100000 ''0xab'' 1700003600 42 3 1 False True 0 0 6 None"

text \<open>
  A program run by the claimer of \<open>sampleSwap\<close>, at second 1700000000, against a
  contract whose commitment slots all hold 7.
\<close>

definition sampleProgram :: EVMSwapProgram where
  "sampleProgram =
     \<lparr> address = claimerAddress,
       Date_now = 1700000000123,
       getCommitment = (\<lambda>paymentHash'. 7),
       abiCommitHash = (\<lambda>swapData. 0xc0de),
       messageDigest = (\<lambda>prefix commit timeout. Inr [0x4d, 0x53, 0x47]),
       verifyMessage = (\<lambda>message signature'.
          if signature' = ''signed-by-offerer'' then Inr offererAddress
          else if signature' = ''signed-by-claimer'' then Inr claimerAddress
          else Inl ''invalid signature string'') \<rparr>"

text \<open>The same program 3500 seconds later, 100 seconds before the swap's expiry.\<close>

definition laterProgram :: EVMSwapProgram where
  "laterProgram = sampleProgram\<lparr>Date_now := 1700003500000\<rparr>"

text \<open>A stand-in for the hash function, to instantiate \<open>getHashForOnchain\<close>.\<close>

definition sampleDigest :: "Buffer \<Rightarrow> Buffer" where
  "sampleDigest bs = [of_nat (length bs), of_nat (bufferValue bs mod 251)]"

text \<open>A relay whose tip slot holds height 800000 and chain work \<open>0x3039\<close>.\<close>

definition sampleRelay :: EVMBtcRelay where
  "sampleRelay =
     \<lparr> highScoreAndBlockHeight =
         0x000C350000000000000000000000000000000000000000000000000000003039,
       forkCounter = 5,
       getLatestMainChainCommitmentHash = ''0xc0ffee'',
       getFeeData = Some \<lparr> lastBaseFeePerGas = Some 30, gasPrice = Some 45 \<rparr>,
       getGasPrice = 50,
       useEip1559ForFeeEstimate = True \<rparr>"

text \<open>
  A header codec over stored headers that are just their cumulative work, each raw header
  adding its \<open>nbits\<close> field.
\<close>

definition sampleCodec :: "nat HeaderCodec" where
  "sampleCodec =
     \<lparr> computeNext = (\<lambda>prev h. prev + nbits h),
       getChainWork = (\<lambda>stored. uint_be 32 stored),
       serialize = (\<lambda>h. uint_be 4 (version h) @ reversedPrevBlockhash h) \<rparr>"

definition block1 :: BtcBlock where
  "block1 =
     \<lparr> getVersion = 2, getPrevBlockhash = ''00ff'', getMerkleRoot = ''abcd'',
       getTimestamp = 1700000000, getNbits = 10, getNonce = 1, getHash = ''0102'' \<rparr>"

definition block2 :: BtcBlock where
  "block2 =
     \<lparr> getVersion = 2, getPrevBlockhash = ''0102'', getMerkleRoot = ''ef01'',
       getTimestamp = 1700000600, getNbits = 20, getNonce = 2, getHash = ''0304'' \<rparr>"


section \<open>The packed data field: layout, round trip and flag setters\<close>

lemma mask64_nat: "(0xFFFFFFFFFFFFFFFF :: nat) = mask 64"
  by (simp add: mask_eq_exp_minus_1)

lemma mask16_nat: "(0xffff :: nat) = mask 16"
  by (simp add: mask_eq_exp_minus_1)

lemma mask8_nat: "(0xff :: nat) = mask 8"
  by (simp add: mask_eq_exp_minus_1)

lemma data_new:
  "data (EVMSwapData_new a b c d e ex no co ki payIn payOut f g ix h) =
     packedFields ex no co ki payIn payOut ix"
  unfolding EVMSwapData_new_def mask64_nat mask16_nat mask8_nat packedFields_def
  by (cases payIn; cases payOut; simp add: take_bit_eq_mask [symmetric])

text \<open>Each field is read back from its own bit range.\<close>

lemma slice_expiry: "take_bit 64 (packedFields e n c k pi po i) = take_bit 64 e"
  unfolding packedFields_def by (rule bit_eqI) (auto simp add: bit_simps)

lemma slice_nonce: "take_bit 64 (drop_bit 64 (packedFields e n c k pi po i)) = take_bit 64 n"
  unfolding packedFields_def by (rule bit_eqI) (auto simp add: bit_simps)

lemma slice_confirmations:
  "take_bit 16 (drop_bit 128 (packedFields e n c k pi po i)) = take_bit 16 c"
  unfolding packedFields_def by (rule bit_eqI) (auto simp add: bit_simps)

lemma slice_kind: "take_bit 8 (drop_bit 144 (packedFields e n c k pi po i)) = take_bit 8 k"
  unfolding packedFields_def by (rule bit_eqI) (auto simp add: bit_simps)

lemma slice_payIn: "take_bit 8 (drop_bit 152 (packedFields e n c k pi po i)) = of_bool pi"
  unfolding packedFields_def by (rule bit_eqI) (auto simp add: bit_simps)

lemma slice_payOut: "take_bit 8 (drop_bit 160 (packedFields e n c k pi po i)) = of_bool po"
  unfolding packedFields_def by (rule bit_eqI) (auto simp add: bit_simps)

lemma slice_index: "take_bit 8 (drop_bit 168 (packedFields e n c k pi po i)) = take_bit 8 i"
  unfolding packedFields_def by (rule bit_eqI) (auto simp add: bit_simps)

lemma bit_packedFields_less: "bit (packedFields e n c k pi po i) j \<Longrightarrow> j < 176"
  unfolding packedFields_def
  by (simp add: bit_simps) (elim disjE conjE; linarith)

lemma packedFields_less: "packedFields e n c k pi po i < 2 ^ 176"
proof -
  have "take_bit 176 (packedFields e n c k pi po i) = packedFields e n c k pi po i"
    by (rule bit_eqI) (auto simp add: bit_take_bit_iff dest: bit_packedFields_less)
  then show ?thesis
    using take_bit_nat_less_exp [of 176 "packedFields e n c k pi po i"] by simp
qed

lemma data_new_less:
  "data (EVMSwapData_new a b c d e ex no co ki payIn payOut f g ix h) < 2 ^ 176"
  unfolding data_new by (rule packedFields_less)

text \<open>A value below \<open>2 ^ k\<close> and a value shifted by \<open>k\<close> share no bit: OR is addition.\<close>

lemma or_push_bit_add:
  fixes x :: nat
  assumes "x < 2 ^ k"
  shows "x OR push_bit k y = x + 2 ^ k * y"
proof -
  have x: "take_bit k x = x"
    using assms by (simp add: take_bit_nat_eq_self)
  have "take_bit k x AND push_bit k y = 0"
    by (rule bit_eqI) (simp add: bit_simps)
  then have "x AND push_bit k y = 0"
    by (simp add: x)
  then have "x + push_bit k y = x OR push_bit k y"
    by (rule disjunctive_add_eq_or)
  then show ?thesis
    by (simp add: push_bit_eq_mult mult.commute)
qed

lemma packedFields_sum:
  assumes "e < 2 ^ 64" "n < 2 ^ 64" "c < 2 ^ 16" "k < 2 ^ 8" "i < 2 ^ 8"
  shows "packedFields e n c k pi po i =
           e + 2 ^ 64 * n + 2 ^ 128 * c + 2 ^ 144 * k + 2 ^ 152 * of_bool pi
             + 2 ^ 160 * of_bool po + 2 ^ 168 * i"
proof -
  have b1: "e + 2 ^ 64 * n < 2 ^ 128"
    using assms by simp
  have b2: "e + 2 ^ 64 * n + 2 ^ 128 * c < 2 ^ 144"
    using assms by simp
  have b3: "e + 2 ^ 64 * n + 2 ^ 128 * c + 2 ^ 144 * k < 2 ^ 152"
    using assms by simp
  have b4: "e + 2 ^ 64 * n + 2 ^ 128 * c + 2 ^ 144 * k + 2 ^ 152 * of_bool pi < 2 ^ 160"
    using assms by (cases pi) simp_all
  have b5: "e + 2 ^ 64 * n + 2 ^ 128 * c + 2 ^ 144 * k + 2 ^ 152 * of_bool pi
              + 2 ^ 160 * of_bool po < 2 ^ 168"
    using assms by (cases pi; cases po) simp_all
  have "packedFields e n c k pi po i =
      (((((e OR push_bit 64 n) OR push_bit 128 c) OR push_bit 144 k) OR push_bit 152 (of_bool pi))
          OR push_bit 160 (of_bool po)) OR push_bit 168 i"
    unfolding packedFields_def using assms by (simp add: take_bit_nat_eq_self or.assoc)
  also have "\<dots> = e + 2 ^ 64 * n + 2 ^ 128 * c + 2 ^ 144 * k + 2 ^ 152 * of_bool pi
      + 2 ^ 160 * of_bool po + 2 ^ 168 * i"
    using assms(1) by (simp only: or_push_bit_add b1 b2 b3 b4 b5)
  finally show ?thesis .
qed

text \<open>The accessors are the bit ranges of the data word.\<close>

lemma getters_slices:
  "getExpiry s = take_bit 64 (data s)"
  "getEscrowNonce s = take_bit 64 (drop_bit 64 (data s))"
  "getConfirmations s = take_bit 16 (drop_bit 128 (data s))"
  "getKind s = take_bit 8 (drop_bit 144 (data s))"
  "isPayIn s \<longleftrightarrow> take_bit 8 (drop_bit 152 (data s)) > 0"
  "isPayOut s \<longleftrightarrow> take_bit 8 (drop_bit 160 (data s)) > 0"
  "getIndex s = take_bit 8 (drop_bit 168 (data s))"
  unfolding getExpiry_def getEscrowNonce_def getConfirmations_def getKind_def isPayIn_def
    isPayOut_def getIndex_def mask64_nat mask16_nat mask8_nat take_bit_eq_mask
  by (rule refl)+

lemma getExpiry_new:
  "getExpiry (EVMSwapData_new a b c d e ex no co ki payIn payOut f g ix h) = take_bit 64 ex"
  unfolding getters_slices data_new by (rule slice_expiry)

lemma getEscrowNonce_new:
  "getEscrowNonce (EVMSwapData_new a b c d e ex no co ki payIn payOut f g ix h) = take_bit 64 no"
  unfolding getters_slices data_new by (rule slice_nonce)

lemma getConfirmations_new:
  "getConfirmations (EVMSwapData_new a b c d e ex no co ki payIn payOut f g ix h) = take_bit 16 co"
  unfolding getters_slices data_new by (rule slice_confirmations)

lemma getKind_new:
  "getKind (EVMSwapData_new a b c d e ex no co ki payIn payOut f g ix h) = take_bit 8 ki"
  unfolding getters_slices data_new by (rule slice_kind)

lemma isPayIn_new:
  "isPayIn (EVMSwapData_new a b c d e ex no co ki payIn payOut f g ix h) = payIn"
  unfolding getters_slices data_new slice_payIn by simp

lemma isPayOut_new:
  "isPayOut (EVMSwapData_new a b c d e ex no co ki payIn payOut f g ix h) = payOut"
  unfolding getters_slices data_new slice_payOut by simp

lemma getIndex_new:
  "getIndex (EVMSwapData_new a b c d e ex no co ki payIn payOut f g ix h) = take_bit 8 ix"
  unfolding getters_slices data_new by (rule slice_index)

lemmas accessors_new = getExpiry_new getEscrowNonce_new getConfirmations_new getKind_new
  isPayIn_new isPayOut_new getIndex_new

lemma sampleSwap_fields:
  "getExpiry sampleSwap = 1700003600" "getEscrowNonce sampleSwap = 42"
  "getConfirmations sampleSwap = 3" "getKind sampleSwap = 1"
  "\<not> isPayIn sampleSwap" "isPayOut sampleSwap" "getIndex sampleSwap = 6"
  "offerer sampleSwap = offererAddress" "claimer sampleSwap = claimerAddress"
  "paymentHash sampleSwap = ''0xab''"
  unfolding sampleSwap_def by (simp_all add: accessors_new) (simp_all add: EVMSwapData_new_def)

text \<open>
  Claim C3. For every combination of values of the fields of the data word (expiry and
  escrow nonce of 64 bits, required confirmations of 16 bits, kind and index of 8 bits,
  and the two flags), the constructor packs the fields into the data word at bits 0..63,
  64..127, 128..143, 144..151, 152..159, 160..167 and 168..175, and \<open>getExpiry\<close>,
  \<open>getEscrowNonce\<close>, \<open>getConfirmations\<close>, \<open>getKind\<close>, \<open>isPayIn\<close>, \<open>isPayOut\<close> and
  \<open>getIndex\<close> return exactly the original values.
\<close>

theorem data_roundtrip_in_range:
  assumes "ex < 2 ^ 64" and "no < 2 ^ 64" and "co < 2 ^ 16" and "ki < 2 ^ 8" and "ix < 2 ^ 8"
  shows "data (EVMSwapData_new a b c d e ex no co ki payIn payOut f g ix h) =
           ex + 2 ^ 64 * no + 2 ^ 128 * co + 2 ^ 144 * ki
             + 2 ^ 152 * (if payIn then 1 else 0) + 2 ^ 160 * (if payOut then 1 else 0)
             + 2 ^ 168 * ix
       \<and> getExpiry (EVMSwapData_new a b c d e ex no co ki payIn payOut f g ix h) = ex
       \<and> getEscrowNonce (EVMSwapData_new a b c d e ex no co ki payIn payOut f g ix h) = no
       \<and> getConfirmations (EVMSwapData_new a b c d e ex no co ki payIn payOut f g ix h) = co
       \<and> getKind (EVMSwapData_new a b c d e ex no co ki payIn payOut f g ix h) = ki
       \<and> isPayIn (EVMSwapData_new a b c d e ex no co ki payIn payOut f g ix h) = payIn
       \<and> isPayOut (EVMSwapData_new a b c d e ex no co ki payIn payOut f g ix h) = payOut
       \<and> getIndex (EVMSwapData_new a b c d e ex no co ki payIn payOut f g ix h) = ix"
proof -
  have "data (EVMSwapData_new a b c d e ex no co ki payIn payOut f g ix h) =
           ex + 2 ^ 64 * no + 2 ^ 128 * co + 2 ^ 144 * ki
             + 2 ^ 152 * (if payIn then 1 else 0) + 2 ^ 160 * (if payOut then 1 else 0)
             + 2 ^ 168 * ix"
    unfolding data_new packedFields_sum [OF assms] by simp
  then show ?thesis
    using assms by (simp only: accessors_new take_bit_nat_eq_self simp_thms)
qed

text \<open>The sample swap: all seven fields come back, and the data word is the expected one.\<close>

theorem data_roundtrip_in_range_witness:
  "(1700003600 :: nat) < 2 ^ 64 \<and> (42 :: nat) < 2 ^ 64 \<and> (3 :: nat) < 2 ^ 16
   \<and> (1 :: nat) < 2 ^ 8 \<and> (6 :: nat) < 2 ^ 8
   \<and> data sampleSwap = 0x00060100010003000000000000002A000000006553FF10
   \<and> getExpiry sampleSwap = 1700003600 \<and> getEscrowNonce sampleSwap = 42
   \<and> getConfirmations sampleSwap = 3 \<and> getKind sampleSwap = 1
   \<and> \<not> isPayIn sampleSwap \<and> isPayOut sampleSwap \<and> getIndex sampleSwap = 6"
proof -
  have h: "(1700003600 :: nat) < 2 ^ 64" "(42 :: nat) < 2 ^ 64" "(3 :: nat) < 2 ^ 16"
    "(1 :: nat) < 2 ^ 8" "(6 :: nat) < 2 ^ 8"
    by simp_all
  show ?thesis
    using data_roundtrip_in_range [OF h, of offererAddress claimerAddress
        "''0x0000000000000000000000000000000000000000''" 100000 "''0xab''" False True 0 0 None]
    unfolding sampleSwap_def by simp
qed

subsection \<open>The flag setters\<close>

lemma maskPayIn_nat:
  "(0x00000000000000000000FFFF00FFFFFFFFFFFFFFFFFFFFFFFFFFFFFFFFFFFFFF :: nat) =
     mask 152 OR push_bit 160 (mask 16)"
proof -
  have "(mask 152 :: nat) < 2 ^ 160"
    by (rule less_le_trans [OF mask_nat_less_exp]) simp
  then have "(mask 152 :: nat) OR push_bit 160 (mask 16) = mask 152 + 2 ^ 160 * mask 16"
    by (rule or_push_bit_add)
  then show ?thesis
    by (simp add: mask_eq_exp_minus_1)
qed

lemma maskPayOut_nat:
  "(0x00000000000000000000FF00FFFFFFFFFFFFFFFFFFFFFFFFFFFFFFFFFFFFFFFF :: nat) =
     mask 160 OR push_bit 168 (mask 8)"
proof -
  have "(mask 160 :: nat) < 2 ^ 168"
    by (rule less_le_trans [OF mask_nat_less_exp]) simp
  then have "(mask 160 :: nat) OR push_bit 168 (mask 8) = mask 160 + 2 ^ 168 * mask 8"
    by (rule or_push_bit_add)
  then show ?thesis
    by (simp add: mask_eq_exp_minus_1)
qed

lemma bit_less_exp:
  fixes d :: nat
  assumes "d < 2 ^ w" and "bit d j"
  shows "j < w"
proof -
  have "take_bit w d = d"
    using assms(1) by (simp add: take_bit_nat_eq_self)
  then have "bit (take_bit w d) j"
    using assms(2) by simp
  then show ?thesis
    by (simp add: bit_take_bit_iff)
qed

lemma data_setPayIn:
  "data (setPayIn b s) =
     (data s AND (mask 152 OR push_bit 160 (mask 16))) OR push_bit 152 (of_bool b)"
  unfolding setPayIn_def maskPayIn_nat by (cases b) simp_all

lemma data_setPayOut:
  "data (setPayOut b s) =
     (data s AND (mask 160 OR push_bit 168 (mask 8))) OR push_bit 160 (of_bool b)"
  unfolding setPayOut_def maskPayOut_nat by (cases b) simp_all

text \<open>Bit by bit: the flag's byte is rewritten, bits from 176 up are cleared, the rest is kept.\<close>

lemma bit_setPayIn:
  "bit (data (setPayIn b s)) j \<longleftrightarrow>
     (if 152 \<le> j \<and> j < 160 then j = 152 \<and> b else j < 176 \<and> bit (data s) j)"
  unfolding data_setPayIn
  by (simp add: bit_simps) (intro conjI impI; arith)

lemma bit_setPayOut:
  "bit (data (setPayOut b s)) j \<longleftrightarrow>
     (if 160 \<le> j \<and> j < 168 then j = 160 \<and> b else j < 176 \<and> bit (data s) j)"
  unfolding data_setPayOut
  by (simp add: bit_simps) (intro conjI impI; arith)

lemma slice_cong:
  fixes x y :: nat
  assumes "\<And>j. lo \<le> j \<Longrightarrow> j < lo + w \<Longrightarrow> bit x j = bit y j"
  shows "take_bit w (drop_bit lo x) = take_bit w (drop_bit lo y)"
proof (rule bit_eqI)
  fix m
  show "bit (take_bit w (drop_bit lo x)) m = bit (take_bit w (drop_bit lo y)) m"
  proof (cases "m < w")
    case True
    then have "bit x (lo + m) = bit y (lo + m)"
      by (intro assms) simp_all
    then show ?thesis
      by (simp add: bit_take_bit_iff bit_drop_bit_eq)
  next
    case False
    then show ?thesis
      by (simp add: bit_take_bit_iff)
  qed
qed

lemma slice_cong0:
  fixes x y :: nat
  assumes "\<And>j. j < w \<Longrightarrow> bit x j = bit y j"
  shows "take_bit w x = take_bit w y"
  using slice_cong [of 0 w x y] assms by simp

lemma setPayIn_outside:
  assumes "data s < 2 ^ 176" and "\<not> (152 \<le> j \<and> j < 160)"
  shows "bit (data (setPayIn b s)) j = bit (data s) j"
  using assms bit_less_exp [of "data s" 176 j] by (auto simp add: bit_setPayIn)

lemma setPayOut_outside:
  assumes "data s < 2 ^ 176" and "\<not> (160 \<le> j \<and> j < 168)"
  shows "bit (data (setPayOut b s)) j = bit (data s) j"
  using assms bit_less_exp [of "data s" 176 j] by (auto simp add: bit_setPayOut)

lemma setPayIn_field: "take_bit 8 (drop_bit 152 (data (setPayIn b s))) = of_bool b"
  by (rule bit_eqI)
    (auto simp add: bit_take_bit_iff bit_drop_bit_eq bit_setPayIn bit_of_bool_iff)

lemma setPayOut_field: "take_bit 8 (drop_bit 160 (data (setPayOut b s))) = of_bool b"
  by (rule bit_eqI)
    (auto simp add: bit_take_bit_iff bit_drop_bit_eq bit_setPayOut bit_of_bool_iff)

lemma setPayIn_getters:
  assumes "data s < 2 ^ 176"
  shows "getExpiry (setPayIn b s) = getExpiry s"
    and "getEscrowNonce (setPayIn b s) = getEscrowNonce s"
    and "getConfirmations (setPayIn b s) = getConfirmations s"
    and "getKind (setPayIn b s) = getKind s"
    and "isPayIn (setPayIn b s) = b"
    and "isPayOut (setPayIn b s) = isPayOut s"
    and "getIndex (setPayIn b s) = getIndex s"
proof -
  note out = setPayIn_outside [OF assms]
  show "getExpiry (setPayIn b s) = getExpiry s"
    unfolding getters_slices by (rule slice_cong0) (simp add: out)
  show "getEscrowNonce (setPayIn b s) = getEscrowNonce s"
    unfolding getters_slices by (rule slice_cong) (simp add: out)
  show "getConfirmations (setPayIn b s) = getConfirmations s"
    unfolding getters_slices by (rule slice_cong) (simp add: out)
  show "getKind (setPayIn b s) = getKind s"
    unfolding getters_slices by (rule slice_cong) (simp add: out)
  show "isPayIn (setPayIn b s) = b"
    unfolding getters_slices setPayIn_field by simp
  have "take_bit 8 (drop_bit 160 (data (setPayIn b s))) = take_bit 8 (drop_bit 160 (data s))"
    by (rule slice_cong) (simp add: out)
  then show "isPayOut (setPayIn b s) = isPayOut s"
    unfolding getters_slices by simp
  show "getIndex (setPayIn b s) = getIndex s"
    unfolding getters_slices by (rule slice_cong) (simp add: out)
qed

lemma setPayOut_getters:
  assumes "data s < 2 ^ 176"
  shows "getExpiry (setPayOut b s) = getExpiry s"
    and "getEscrowNonce (setPayOut b s) = getEscrowNonce s"
    and "getConfirmations (setPayOut b s) = getConfirmations s"
    and "getKind (setPayOut b s) = getKind s"
    and "isPayIn (setPayOut b s) = isPayIn s"
    and "isPayOut (setPayOut b s) = b"
    and "getIndex (setPayOut b s) = getIndex s"
proof -
  note out = setPayOut_outside [OF assms]
  show "getExpiry (setPayOut b s) = getExpiry s"
    unfolding getters_slices by (rule slice_cong0) (simp add: out)
  show "getEscrowNonce (setPayOut b s) = getEscrowNonce s"
    unfolding getters_slices by (rule slice_cong) (simp add: out)
  show "getConfirmations (setPayOut b s) = getConfirmations s"
    unfolding getters_slices by (rule slice_cong) (simp add: out)
  show "getKind (setPayOut b s) = getKind s"
    unfolding getters_slices by (rule slice_cong) (simp add: out)
  have "take_bit 8 (drop_bit 152 (data (setPayOut b s))) = take_bit 8 (drop_bit 152 (data s))"
    by (rule slice_cong) (simp add: out)
  then show "isPayIn (setPayOut b s) = isPayIn s"
    unfolding getters_slices by simp
  show "isPayOut (setPayOut b s) = b"
    unfolding getters_slices setPayOut_field by simp
  show "getIndex (setPayOut b s) = getIndex s"
    unfolding getters_slices by (rule slice_cong) (simp add: out)
qed

text \<open>
  Claim C10. For every swap record whose data word is below \<open>2 ^ 176\<close>, \<open>setPayIn b\<close>
  changes no bit outside 152..159, leaves 1 or 0 (as \<open>b\<close>) in those eight bits, leaves
  expiry, escrow nonce, confirmations, kind, the pay-out flag and the index as they were,
  and touches no other field of the record; \<open>setPayOut b\<close> does the same for bits
  160..167, leaving the pay-in flag and the index as they were.
\<close>

theorem setPay_frame:
  assumes "data s < 2 ^ 176"
  shows "(\<forall>j. \<not> (152 \<le> j \<and> j < 160) \<longrightarrow> bit (data (setPayIn b s)) j = bit (data s) j)
       \<and> take_bit 8 (drop_bit 152 (data (setPayIn b s))) = (if b then 1 else 0)
       \<and> isPayIn (setPayIn b s) = b
       \<and> getExpiry (setPayIn b s) = getExpiry s
       \<and> getEscrowNonce (setPayIn b s) = getEscrowNonce s
       \<and> getConfirmations (setPayIn b s) = getConfirmations s
       \<and> getKind (setPayIn b s) = getKind s
       \<and> isPayOut (setPayIn b s) = isPayOut s
       \<and> getIndex (setPayIn b s) = getIndex s
       \<and> (setPayIn b s)\<lparr>data := data s\<rparr> = s
       \<and> (\<forall>j. \<not> (160 \<le> j \<and> j < 168) \<longrightarrow> bit (data (setPayOut b s)) j = bit (data s) j)
       \<and> take_bit 8 (drop_bit 160 (data (setPayOut b s))) = (if b then 1 else 0)
       \<and> isPayOut (setPayOut b s) = b
       \<and> getExpiry (setPayOut b s) = getExpiry s
       \<and> getEscrowNonce (setPayOut b s) = getEscrowNonce s
       \<and> getConfirmations (setPayOut b s) = getConfirmations s
       \<and> getKind (setPayOut b s) = getKind s
       \<and> isPayIn (setPayOut b s) = isPayIn s
       \<and> getIndex (setPayOut b s) = getIndex s
       \<and> (setPayOut b s)\<lparr>data := data s\<rparr> = s"
  using setPayIn_getters [OF assms, of b] setPayOut_getters [OF assms, of b]
    setPayIn_outside [OF assms, of _ b] setPayOut_outside [OF assms, of _ b]
  by (simp add: setPayIn_field setPayOut_field setPayIn_def setPayOut_def)

text \<open>On the sample swap (pay-in clear, pay-out set): set the first, clear the second.\<close>

theorem setPay_frame_witness:
  "data sampleSwap < 2 ^ 176
   \<and> isPayIn (setPayIn True sampleSwap) \<and> isPayOut (setPayIn True sampleSwap)
   \<and> getIndex (setPayIn True sampleSwap) = 6
   \<and> getExpiry (setPayIn True sampleSwap) = 1700003600
   \<and> \<not> isPayOut (setPayOut False sampleSwap) \<and> \<not> isPayIn (setPayOut False sampleSwap)
   \<and> getIndex (setPayOut False sampleSwap) = 6
   \<and> getEscrowNonce (setPayOut False sampleSwap) = 42"
proof -
  have h: "data sampleSwap < 2 ^ 176"
    unfolding sampleSwap_def by (rule data_new_less)
  show ?thesis
    using setPay_frame [OF h, of True] setPay_frame [OF h, of False] h
    by (simp add: sampleSwap_fields)
qed

section \<open>Hexadecimal strings and fixed-width encodings\<close>

lemma hexValue_hexDigit: "m < 16 \<Longrightarrow> hexValue (hexDigit m) = Some m"
  by (simp add: hexValue_def hexDigit_def Let_def)

lemma hexDigit_0: "hexDigit 0 = CHR ''0''"
  by code_simp

lemma unat_byte_div_mod:
  fixes b :: byte
  shows "unat b div 16 < 16"
    and "unat b mod 16 < 16"
    and "16 * (unat b div 16) + unat b mod 16 = unat b"
proof -
  have "unat b < 256"
    using unsigned_less [of b] by simp
  then show "unat b div 16 < 16"
    by simp
  show "unat b mod 16 < 16"
    by simp
  show "16 * (unat b div 16) + unat b mod 16 = unat b"
    by simp
qed

text \<open>Decoding what \<open>toString('hex')\<close> wrote gives the bytes back.\<close>

lemma Buffer_from_hex_toString_append:
  "Buffer_from_hex (Buffer_toString_hex bs @ rest) = bs @ Buffer_from_hex rest"
proof (induction bs)
  case Nil
  show ?case
    by (simp add: Buffer_toString_hex_def)
next
  case (Cons b bs)
  then show ?case
    by (simp add: Buffer_toString_hex_def hexValue_hexDigit unat_byte_div_mod)
qed

lemma Buffer_from_hex_toString: "Buffer_from_hex (Buffer_toString_hex bs) = bs"
  using Buffer_from_hex_toString_append [of bs "[]"] by simp

lemma Buffer_toString_hex_append:
  "Buffer_toString_hex (xs @ ys) = Buffer_toString_hex xs @ Buffer_toString_hex ys"
  by (simp add: Buffer_toString_hex_def)

lemma length_Buffer_toString_hex: "length (Buffer_toString_hex bs) = 2 * length bs"
  by (induction bs) (simp_all add: Buffer_toString_hex_def)

lemma hex_Buffer_toString_hex: "list_all isHexDigit (Buffer_toString_hex bs)"
  by (induction bs)
    (simp_all add: Buffer_toString_hex_def isHexDigit_def hexValue_hexDigit unat_byte_div_mod)

lemma arrayify_hex: "arrayify (''0x'' @ Buffer_toString_hex bs) = Inr bs"
  by (simp add: arrayify_def isHexString_def hex_Buffer_toString_hex length_Buffer_toString_hex
      Buffer_from_hex_toString)

lemma solidityKeccak256_bytes_hex:
  "solidityKeccak256_bytes K (''0x'' @ Buffer_toString_hex bs) =
     Inr (''0x'' @ Buffer_toString_hex (K bs))"
  unfolding solidityKeccak256_bytes_def arrayify_hex hexlify_def by simp

text \<open>
  \<open>toString(16)\<close> is the fixed-width digit string without its leading zeros, so padding it
  back to the width restores the fixed-width string.
\<close>

lemma hexDigits_zero: "hexDigits k 0 = replicate k CHR ''0''"
  by (induction k) (simp_all add: hexDigit_0 replicate_append_same)

lemma toString16_hexDigits:
  "n < 16 ^ k \<Longrightarrow> 0 < k \<Longrightarrow>
     \<exists>j \<le> k. hexDigits k n = replicate j CHR ''0'' @ toString16 n
       \<and> length (toString16 n) = k - j"
proof (induction n arbitrary: k rule: toString16.induct)
  case (1 n)
  obtain k' where k: "k = Suc k'"
    using \<open>0 < k\<close> by (cases k) auto
  show ?case
  proof (cases "n < 16")
    case True
    then have "hexDigits k n = replicate k' CHR ''0'' @ toString16 n"
      by (simp add: k toString16.simps [of n] hexDigits_zero)
    moreover have "length (toString16 n) = k - k'"
      using True by (simp add: k toString16.simps [of n])
    ultimately show ?thesis
      using k by (intro exI [of _ k']) simp
  next
    case False
    then have "0 < k'"
      using "1.prems" k by (cases k') auto
    moreover have "n div 16 < 16 ^ k'"
      using "1.prems" k by (simp add: less_mult_imp_div_less mult.commute)
    ultimately obtain j where j: "j \<le> k'"
      "hexDigits k' (n div 16) = replicate j CHR ''0'' @ toString16 (n div 16)"
      "length (toString16 (n div 16)) = k' - j"
      using "1.IH" [OF False, of k'] by blast
    have "hexDigits k n = replicate j CHR ''0'' @ toString16 n"
      using False j by (simp add: k toString16.simps [of n])
    moreover have "length (toString16 n) = k - j"
      using False j by (simp add: k toString16.simps [of n] Suc_diff_le)
    ultimately show ?thesis
      using j k by (intro exI [of _ j]) simp
  qed
qed

lemma padStart_toString16:
  assumes "n < 16 ^ k" and "0 < k"
  shows "padStart k CHR ''0'' (toString16 n) = hexDigits k n"
proof -
  obtain j where "j \<le> k" "hexDigits k n = replicate j CHR ''0'' @ toString16 n"
    "length (toString16 n) = k - j"
    using toString16_hexDigits [OF assms] by blast
  then show ?thesis
    by (simp add: padStart_def)
qed

lemma padStart_toHexString:
  assumes "n < 16 ^ k" and "0 < k" and "even k"
  shows "padStart k CHR ''0'' (drop 2 (toHexString n)) = hexDigits k n"
proof -
  obtain j where j: "j \<le> k" "hexDigits k n = replicate j CHR ''0'' @ toString16 n"
    "length (toString16 n) = k - j"
    using toString16_hexDigits [OF assms(1,2)] by blast
  show ?thesis
  proof (cases "odd (length (toString16 n))")
    case True
    then have "odd j"
      using j assms(3) by auto
    then obtain j' where j': "j = Suc j'"
      by (cases j) auto
    have "replicate j' CHR ''0'' @ CHR ''0'' # toString16 n = replicate j CHR ''0'' @ toString16 n"
      by (simp add: j' replicate_app_Cons_same)
    then show ?thesis
      using True j by (simp add: toHexString_def padStart_def j')
  next
    case False
    then show ?thesis
      using j by (simp add: toHexString_def padStart_def)
  qed
qed

text \<open>Two hexadecimal digits per byte, most significant byte first.\<close>

lemma hexDigits_uint_be: "hexDigits (2 * k) n = Buffer_toString_hex (uint_be k n)"
proof (induction k arbitrary: n)
  case 0
  show ?case
    by (simp add: Buffer_toString_hex_def)
next
  case (Suc k)
  have u: "unat (of_nat (n mod 256) :: byte) = n mod 256"
    by (simp add: unat_of_nat)
  have d: "n div 16 div 16 = n div 256"
    by (simp add: div_mult2_eq [symmetric])
  have m: "n mod 256 div 16 = n div 16 mod 16" "n mod 256 mod 16 = n mod 16"
    by (simp_all add: mod_mult2_eq [of n 16 16, simplified])
  show ?case
    using Suc.IH [of "n div 256"]
    by (simp add: Buffer_toString_hex_append d) (simp add: Buffer_toString_hex_def u m)
qed

lemma rev_uint_be: "rev (uint_be k n) = uint_le k n"
  by (induction k arbitrary: n) simp_all

lemma length_uint_be: "length (uint_be k n) = k"
  by (induction k arbitrary: n) simp_all

lemma bufferValue_snoc: "bufferValue (bs @ [b]) = 256 * bufferValue bs + unat b"
  by (simp add: bufferValue_def)

lemma bufferValue_uint_be: "bufferValue (uint_be k n) = n mod 256 ^ k"
proof (induction k arbitrary: n)
  case 0
  show ?case
    by (simp add: bufferValue_def)
next
  case (Suc k)
  have u: "unat (of_nat (n mod 256) :: byte) = n mod 256"
    by (simp add: unat_of_nat)
  show ?case
    by (simp add: bufferValue_snoc Suc.IH u mod_mult2_eq)
qed

lemma uint_be_numeral:
  "uint_be (numeral k) n = uint_be (pred_numeral k) (n div 256) @ [of_nat (n mod 256)]"
  by (simp add: numeral_eq_Suc [of k])

lemma uint_le_numeral:
  "uint_le (numeral k) n = of_nat (n mod 256) # uint_le (pred_numeral k) (n div 256)"
  by (simp add: numeral_eq_Suc [of k])

lemma uint_be_1: "uint_be 1 n = [of_nat (n mod 256)]"
  by simp

lemma uint_le_1: "uint_le 1 n = [of_nat (n mod 256)]"
  by simp

lemmas uint_eval = uint_be_numeral uint_le_numeral uint_be_1 uint_le_1

subsection \<open>The on-chain hash\<close>

lemma padStart16_uint_be:
  assumes "n < 2 ^ 64"
  shows "padStart 16 CHR ''0'' (toString16 n) = Buffer_toString_hex (uint_be 8 n)"
proof -
  have "n < 16 ^ 16"
    using assms by simp
  then have "padStart 16 CHR ''0'' (toString16 n) = hexDigits (2 * 8) n"
    by (simp add: padStart_toString16)
  then show ?thesis
    by (simp only: hexDigits_uint_be)
qed

text \<open>
  Claim C6. For every output script, every amount below \<open>2 ^ 64\<close> and every nonce below
  \<open>2 ^ 64\<close>, \<open>getHashForOnchain\<close> returns the digest of the nonce as 8 bytes big-endian
  followed by the digest of the amount as 8 bytes little-endian followed by the output
  script, whatever the hash function is.
\<close>

theorem getHashForOnchain_spec:
  assumes "amt < 2 ^ 64" and "non < 2 ^ 64"
  shows "getHashForOnchain keccak256 outputScript amt non =
           Inr (keccak256 (uint_be 8 non @ keccak256 (uint_le 8 amt @ outputScript)))"
proof -
  have a: "rev (Buffer_from_hex (padStart 16 CHR ''0'' (toString16 amt))) = uint_le 8 amt"
    by (simp only: padStart16_uint_be [OF assms(1)] Buffer_from_hex_toString rev_uint_be)
  have n: "''0x'' @ padStart 16 CHR ''0'' (toString16 non) @ Buffer_toString_hex bs
        = ''0x'' @ Buffer_toString_hex (uint_be 8 non @ bs)" for bs
    by (simp only: padStart16_uint_be [OF assms(2)] Buffer_toString_hex_append)
  have d: "drop 2 (''0x'' @ xs) = xs" for xs :: string
    by simp
  show ?thesis
    unfolding getHashForOnchain_def Let_def a solidityKeccak256_bytes_hex sum.case d n
    by (simp only: Buffer_from_hex_toString)
qed

text \<open>Amount 100000 (\<open>0x0186a0\<close>) and nonce 7, with the stand-in hash function.\<close>

theorem getHashForOnchain_spec_witness:
  "(100000 :: nat) < 2 ^ 64 \<and> (7 :: nat) < 2 ^ 64 \<and>
   getHashForOnchain sampleDigest [0x00, 0x14, 0xab] 100000 7 =
     Inr (sampleDigest ([0, 0, 0, 0, 0, 0, 0, 7]
            @ sampleDigest ([0xa0, 0x86, 0x01, 0, 0, 0, 0, 0] @ [0x00, 0x14, 0xab])))"
proof -
  have h: "(100000 :: nat) < 2 ^ 64" "(7 :: nat) < 2 ^ 64"
    by simp_all
  have e: "uint_be 8 7 = [0, 0, 0, 0, 0, 0, 0, 7]"
    "uint_le 8 100000 = [0xa0, 0x86, 0x01, 0, 0, 0, 0, 0]"
    by (simp_all add: uint_eval)
  show ?thesis
    using getHashForOnchain_spec [OF h, of sampleDigest "[0x00, 0x14, 0xab]"] h
    by (simp only: e)
qed

subsection \<open>The relay tip\<close>

lemma mask224_nat:
  "(0x00000000FFFFFFFFFFFFFFFFFFFFFFFFFFFFFFFFFFFFFFFFFFFFFFFFFFFFFFFF :: nat) = mask 224"
  by (simp add: mask_eq_exp_minus_1)

lemma chainWork_bytes:
  "Buffer_from_hex (padStart 64 CHR ''0'' (drop 2 (toHexString
      (hs AND 0x00000000FFFFFFFFFFFFFFFFFFFFFFFFFFFFFFFFFFFFFFFFFFFFFFFFFFFFFFFF))))
     = uint_be 32 (hs mod 2 ^ 224)"
proof -
  have m: "hs AND 0x00000000FFFFFFFFFFFFFFFFFFFFFFFFFFFFFFFFFFFFFFFFFFFFFFFFFFFFFFFF
      = hs mod 2 ^ 224"
    unfolding mask224_nat by (simp add: take_bit_eq_mask [symmetric] take_bit_eq_mod)
  have "hs mod 2 ^ 224 < (2 :: nat) ^ 224"
    by simp
  also have "\<dots> < 16 ^ 64"
    by simp
  finally have "padStart 64 CHR ''0'' (drop 2 (toHexString (hs mod 2 ^ 224)))
      = hexDigits (2 * 32) (hs mod 2 ^ 224)"
    by (simp add: padStart_toHexString)
  then show ?thesis
    unfolding m by (simp only: hexDigits_uint_be Buffer_from_hex_toString)
qed

text \<open>
  Claim C9. For every packed tip word, \<open>getTipData\<close> returns nothing exactly when the top
  32 bits (the word divided by \<open>2 ^ 224\<close>, a number below \<open>2 ^ 32\<close>) are zero; otherwise
  it returns the contract's latest commitment hash without its \<open>0x\<close>, the block height
  from the top 32 bits and, as chain work, the 32-byte big-endian buffer of the low 224
  bits (the word modulo \<open>2 ^ 224\<close>).
\<close>

theorem getTipData_decode:
  "(getTipData r = None \<longleftrightarrow> unat (highScoreAndBlockHeight r) div 2 ^ 224 = 0)
   \<and> (unat (highScoreAndBlockHeight r) div 2 ^ 224 \<noteq> 0 \<longrightarrow>
        getTipData r =
          Some \<lparr> commitHash = drop 2 (getLatestMainChainCommitmentHash r),
                 chainWork = uint_be 32 (unat (highScoreAndBlockHeight r) mod 2 ^ 224),
                 blockheight = unat (highScoreAndBlockHeight r) div 2 ^ 224 \<rparr>)
   \<and> unat (highScoreAndBlockHeight r) div 2 ^ 224 < 2 ^ 32
   \<and> length (uint_be 32 (unat (highScoreAndBlockHeight r) mod 2 ^ 224)) = 32
   \<and> bufferValue (uint_be 32 (unat (highScoreAndBlockHeight r) mod 2 ^ 224))
        = unat (highScoreAndBlockHeight r) mod 2 ^ 224"
proof -
  have "unat (highScoreAndBlockHeight r) < 2 ^ 256"
    using unsigned_less [of "highScoreAndBlockHeight r"] by simp
  then have b: "unat (highScoreAndBlockHeight r) div 2 ^ 224 < 2 ^ 32"
    by (simp add: less_mult_imp_div_less)
  have "unat (highScoreAndBlockHeight r) mod 2 ^ 224 < 2 ^ 224"
    by simp
  then have v: "unat (highScoreAndBlockHeight r) mod 2 ^ 224 mod 256 ^ 32
      = unat (highScoreAndBlockHeight r) mod 2 ^ 224"
    by simp
  show ?thesis
    unfolding getTipData_def Let_def chainWork_bytes drop_bit_eq_div bufferValue_uint_be v
      length_uint_be
    using b by simp
qed

lemma sampleRelay_tip:
  "unat (highScoreAndBlockHeight sampleRelay) div 2 ^ 224 = 800000"
  "unat (highScoreAndBlockHeight sampleRelay) mod 2 ^ 224 = 0x3039"
proof -
  have u: "unat (highScoreAndBlockHeight sampleRelay) =
      0x000C350000000000000000000000000000000000000000000000000000003039"
    by (simp add: sampleRelay_def)
  show "unat (highScoreAndBlockHeight sampleRelay) div 2 ^ 224 = 800000"
    unfolding u by simp
  show "unat (highScoreAndBlockHeight sampleRelay) mod 2 ^ 224 = 0x3039"
    unfolding u by simp
qed

text \<open>The sample relay: height 800000, work \<open>0x3039\<close>.\<close>

theorem getTipData_decode_witness:
  "unat (highScoreAndBlockHeight sampleRelay) div 2 ^ 224 \<noteq> 0 \<and>
   getTipData sampleRelay =
     Some \<lparr> commitHash = ''c0ffee'',
            chainWork = [0, 0, 0, 0, 0, 0, 0, 0, 0, 0, 0, 0, 0, 0, 0, 0,
                         0, 0, 0, 0, 0, 0, 0, 0, 0, 0, 0, 0, 0, 0, 0x30, 0x39],
            blockheight = 800000 \<rparr>"
proof -
  have e: "uint_be 32 0x3039 = [0, 0, 0, 0, 0, 0, 0, 0, 0, 0, 0, 0, 0, 0, 0, 0,
                         0, 0, 0, 0, 0, 0, 0, 0, 0, 0, 0, 0, 0, 0, 0x30, 0x39]"
    by (simp add: uint_eval)
  have c: "drop 2 (getLatestMainChainCommitmentHash sampleRelay) = ''c0ffee''"
    by (simp add: sampleRelay_def)
  show ?thesis
    using getTipData_decode [of sampleRelay] unfolding sampleRelay_tip e c by simp
qed

section \<open>The relay client: fork submissions and the synchronisation fee\<close>

text \<open>The loop that appends to the list is the chain built from the front.\<close>

lemma precompute_append:
  "foldl (\<lambda>computed blockHeader. computed @ [computeNext codec (last computed) blockHeader])
      (pre @ [prev]) hs = pre @ headerChain codec prev hs"
proof (induction hs arbitrary: pre prev)
  case Nil
  show ?case
    by simp
next
  case (Cons h hs)
  have "foldl (\<lambda>computed blockHeader. computed @ [computeNext codec (last computed) blockHeader])
          ((pre @ [prev]) @ [computeNext codec prev h]) hs
        = (pre @ [prev]) @ headerChain codec (computeNext codec prev h) hs"
    by (rule Cons.IH)
  then show ?case
    by simp
qed

lemma precompute_headerChain: "precompute codec prev hs = headerChain codec prev hs"
  using precompute_append [of codec "[]" prev hs] by (simp add: precompute_def)

lemma headerChain_nonempty: "headerChain codec prev hs \<noteq> []"
  by (cases hs) simp_all

lemma last_headerChain: "last (headerChain codec prev hs) = foldl (computeNext codec) prev hs"
  by (induction hs arbitrary: prev) (simp_all add: headerChain_nonempty)

lemma length_headerChain: "length (headerChain codec prev hs) = Suc (length hs)"
  by (induction hs arbitrary: prev) simp_all

text \<open>
  Claim C7. For every list of fork headers (empty or not), \<open>saveNewForkHeaders\<close> and
  \<open>saveForkHeaders\<close> return as computed headers the chain obtained from the previous
  stored header by applying \<open>computeNext\<close> once per raw header, return the last element
  of that chain as last stored header, and return fork id 0 when the chain work of that
  last header is strictly greater than the tip work; otherwise the fork id is the
  contract's fork counter, respectively the fork id the caller passed.
\<close>

theorem saveForkHeaders_promotion:
  "computedCommitedHeaders (saveNewForkHeaders r codec forkHeaders prev tipWork)
       = headerChain codec prev (map serializeBlockHeader forkHeaders)
   \<and> lastStoredHeader (saveNewForkHeaders r codec forkHeaders prev tipWork)
       = last (headerChain codec prev (map serializeBlockHeader forkHeaders))
   \<and> lastStoredHeader (saveNewForkHeaders r codec forkHeaders prev tipWork)
       = foldl (computeNext codec) prev (map serializeBlockHeader forkHeaders)
   \<and> (bufferValue (getChainWork codec
            (lastStoredHeader (saveNewForkHeaders r codec forkHeaders prev tipWork)))
          > bufferValue tipWork
        \<longrightarrow> forkId (saveNewForkHeaders r codec forkHeaders prev tipWork) = 0)
   \<and> (\<not> bufferValue (getChainWork codec
            (lastStoredHeader (saveNewForkHeaders r codec forkHeaders prev tipWork)))
          > bufferValue tipWork
        \<longrightarrow> forkId (saveNewForkHeaders r codec forkHeaders prev tipWork) = forkCounter r)
   \<and> computedCommitedHeaders (saveForkHeaders r codec forkHeaders prev fid tipWork)
       = headerChain codec prev (map serializeBlockHeader forkHeaders)
   \<and> lastStoredHeader (saveForkHeaders r codec forkHeaders prev fid tipWork)
       = last (headerChain codec prev (map serializeBlockHeader forkHeaders))
   \<and> lastStoredHeader (saveForkHeaders r codec forkHeaders prev fid tipWork)
       = foldl (computeNext codec) prev (map serializeBlockHeader forkHeaders)
   \<and> (bufferValue (getChainWork codec
            (lastStoredHeader (saveForkHeaders r codec forkHeaders prev fid tipWork)))
          > bufferValue tipWork
        \<longrightarrow> forkId (saveForkHeaders r codec forkHeaders prev fid tipWork) = 0)
   \<and> (\<not> bufferValue (getChainWork codec
            (lastStoredHeader (saveForkHeaders r codec forkHeaders prev fid tipWork)))
          > bufferValue tipWork
        \<longrightarrow> forkId (saveForkHeaders r codec forkHeaders prev fid tipWork) = fid)"
  by (simp add: saveNewForkHeaders_def saveForkHeaders_def Let_def precompute_headerChain
      last_headerChain gtBuffer_def)

lemma sampleChain:
  "headerChain sampleCodec 1000 (map serializeBlockHeader [block1, block2]) = [1000, 1010, 1030]"
  "foldl (computeNext sampleCodec) 1000 (map serializeBlockHeader [block1, block2]) = 1030"
  by (simp_all add: sampleCodec_def serializeBlockHeader_def block1_def block2_def)

text \<open>
  Two raw headers on top of work 1000 reach work 1030: against tip work 1029 the fork is
  promoted (fork id 0), against tip work 1030 it is not (fork counter 5, or the given 3).
\<close>

theorem saveForkHeaders_promotion_witness:
  "bufferValue (getChainWork sampleCodec (lastStoredHeader
       (saveNewForkHeaders sampleRelay sampleCodec [block1, block2] 1000 (uint_be 32 1029))))
     > bufferValue (uint_be 32 1029)
   \<and> forkId (saveNewForkHeaders sampleRelay sampleCodec [block1, block2] 1000 (uint_be 32 1029)) = 0
   \<and> \<not> bufferValue (getChainWork sampleCodec (lastStoredHeader
       (saveNewForkHeaders sampleRelay sampleCodec [block1, block2] 1000 (uint_be 32 1030))))
     > bufferValue (uint_be 32 1030)
   \<and> forkId (saveNewForkHeaders sampleRelay sampleCodec [block1, block2] 1000 (uint_be 32 1030)) = 5
   \<and> forkId (saveForkHeaders sampleRelay sampleCodec [block1, block2] 1000 3 (uint_be 32 1029)) = 0
   \<and> forkId (saveForkHeaders sampleRelay sampleCodec [block1, block2] 1000 3 (uint_be 32 1030)) = 3
   \<and> lastStoredHeader
        (saveForkHeaders sampleRelay sampleCodec [block1, block2] 1000 3 (uint_be 32 1030)) = 1030
   \<and> computedCommitedHeaders
        (saveNewForkHeaders sampleRelay sampleCodec [block1, block2] 1000 (uint_be 32 1030))
        = [1000, 1010, 1030]"
proof -
  have w: "getChainWork sampleCodec x = uint_be 32 x" for x
    by (simp add: sampleCodec_def)
  have c: "forkCounter sampleRelay = 5"
    by (simp add: sampleRelay_def)
  show ?thesis
    using
      saveForkHeaders_promotion [of sampleRelay sampleCodec "[block1, block2]" 1000 "uint_be 32 1029" 3]
      saveForkHeaders_promotion [of sampleRelay sampleCodec "[block1, block2]" 1000 "uint_be 32 1030" 3]
    unfolding sampleChain w c bufferValue_uint_be
    by simp
qed

text \<open>
  Claim C8. For every target height, \<open>estimateSynchronizeFee\<close> returns the difference
  between the target height and the relay's current height (the top 32 bits of the tip
  word), times 35000, times the gas price, when the target is strictly above the current
  height, and zero when the current height is at or above the target.
\<close>

theorem estimateSynchronizeFee_spec:
  "(int (unat (highScoreAndBlockHeight r) div 2 ^ 224) < requiredBlockheight \<longrightarrow>
      estimateSynchronizeFee r requiredBlockheight =
        (requiredBlockheight - int (unat (highScoreAndBlockHeight r) div 2 ^ 224)) * 35000
          * int (preferredGasPrice r))
   \<and> (requiredBlockheight \<le> int (unat (highScoreAndBlockHeight r) div 2 ^ 224) \<longrightarrow>
      estimateSynchronizeFee r requiredBlockheight = 0)"
  by (auto simp add: estimateSynchronizeFee_def preferredGasPrice_def Let_def
      GAS_PER_BLOCKHEADER_def drop_bit_eq_div split: option.splits)

text \<open>From height 800000 at base fee 30: ten headers cost 10500000; a lower target costs 0.\<close>

theorem estimateSynchronizeFee_spec_witness:
  "int (unat (highScoreAndBlockHeight sampleRelay) div 2 ^ 224) < 800010
   \<and> estimateSynchronizeFee sampleRelay 800010 = 10500000
   \<and> (799999 :: int) \<le> int (unat (highScoreAndBlockHeight sampleRelay) div 2 ^ 224)
   \<and> estimateSynchronizeFee sampleRelay 799999 = 0"
proof -
  have g: "preferredGasPrice sampleRelay = 30"
    by (simp add: preferredGasPrice_def sampleRelay_def)
  show ?thesis
    using estimateSynchronizeFee_spec [of sampleRelay 800010]
      estimateSynchronizeFee_spec [of sampleRelay 799999]
    unfolding sampleRelay_tip g by simp
qed

section \<open>The swap program: commit status and authorizations\<close>

lemma sampleProgram_facts:
  "currentSeconds sampleProgram = 1700000000" "address sampleProgram = claimerAddress"
  "getCommitment sampleProgram x = 7"
  "getMessage sampleProgram d pre t = Inr [0x4d, 0x53, 0x47]"
  "verifyMessage sampleProgram m ''signed-by-offerer'' = Inr offererAddress"
  "verifyMessage sampleProgram m ''signed-by-claimer'' = Inr claimerAddress"
  by (simp_all add: sampleProgram_def currentSeconds_def getMessage_def)

lemma laterProgram_facts:
  "currentSeconds laterProgram = 1700003500" "address laterProgram = claimerAddress"
  "getCommitment laterProgram x = 7"
  by (simp_all add: laterProgram_def sampleProgram_def currentSeconds_def)

lemma addresses_differ:
  "offererAddress \<noteq> claimerAddress"
  "toLowerCase offererAddress \<noteq> toLowerCase claimerAddress"
  by (simp_all add: offererAddress_def claimerAddress_def toLowerCase_def toLowerChar_def)

text \<open>
  Claim C2, as the code has it. For every swap record whose commitment value is below
  \<open>0x100\<close>, \<open>getCommitStatus\<close> returns EXPIRED exactly when \<open>isExpired\<close> holds, that
  is when the caller is the swap's claimer and the expiry is before the local clock plus
  the claim grace period, or the caller is the swap's offerer (and not also its claimer)
  and the expiry is before the local clock minus the refund grace period; in all other
  cases it returns NOT_COMMITED.
\<close>

theorem getCommitStatus_below_0x100:
  assumes "unat (getCommitment p (paymentHash d)) < 0x100"
  shows "getCommitStatus p d =
           (if (areWeClaimer p d \<and> int (getExpiry d) < currentSeconds p + claimGracePeriod)
               \<or> (areWeOfferer p d \<and> \<not> areWeClaimer p d
                    \<and> int (getExpiry d) < currentSeconds p - refundGracePeriod)
            then EXPIRED else NOT_COMMITED)"
  using assms by (simp add: getCommitStatus_def isExpired_def Let_def)

text \<open>
  The claimer of the sample swap, 3600 seconds before its expiry, reads NOT_COMMITED;
  100 seconds before its expiry, inside the claim grace period, EXPIRED.
\<close>

theorem getCommitStatus_below_0x100_witness:
  "unat (getCommitment sampleProgram (paymentHash sampleSwap)) < 0x100
   \<and> getCommitStatus sampleProgram sampleSwap = NOT_COMMITED
   \<and> unat (getCommitment laterProgram (paymentHash sampleSwap)) < 0x100
   \<and> getCommitStatus laterProgram sampleSwap = EXPIRED"
proof -
  have h1: "unat (getCommitment sampleProgram (paymentHash sampleSwap)) < 0x100"
    by (simp add: sampleProgram_facts)
  have h2: "unat (getCommitment laterProgram (paymentHash sampleSwap)) < 0x100"
    by (simp add: laterProgram_facts)
  show ?thesis
    using getCommitStatus_below_0x100 [OF h1] getCommitStatus_below_0x100 [OF h2] h1 h2
    by (simp add: areWeOfferer_def areWeClaimer_def claimGracePeriod_def refundGracePeriod_def
        sampleSwap_fields sampleProgram_facts laterProgram_facts addresses_differ)
qed

text \<open>
  Claim C2 as stated fails: with a commitment value of 7, a caller who is the claimer and
  not the offerer reads EXPIRED, and does so before the swap's expiry has passed.
\<close>

theorem getCommitStatus_counterexample:
  "unat (getCommitment laterProgram (paymentHash sampleSwap)) < 0x100
   \<and> \<not> areWeOfferer laterProgram sampleSwap
   \<and> currentSeconds laterProgram < int (getExpiry sampleSwap)
   \<and> getCommitStatus laterProgram sampleSwap = EXPIRED"
  by (simp add: getCommitStatus_def isExpired_def Let_def areWeOfferer_def areWeClaimer_def
      claimGracePeriod_def refundGracePeriod_def sampleSwap_fields laterProgram_facts
      addresses_differ)

text \<open>
  Claim C1, as the code has it. For every swap record and every refund authorization
  whose prefix is \<open>refund\<close> and whose timeout is at least the authorization grace period
  ahead of the clock, and for which the library builds the refund message and recovers an
  address from the signature, \<open>isValidRefundAuthorization\<close> succeeds (returning the
  message) if and only if the recovered address equals the swap's claimer, compared in
  lower case; when it differs it raises the signature verification error
  \<open>Invalid signature!\<close>.
\<close>

theorem isValidRefundAuthorization_claimer:
  assumes "authGracePeriod \<le> timeout - currentSeconds p"
    and "getRefundMessage p d ''refund'' timeout = Inr m"
    and "verifyMessage p m sig = Inr a"
  shows "(isValidRefundAuthorization p d timeout ''refund'' sig = Inr m
            \<longleftrightarrow> toLowerCase a = toLowerCase (claimer d))
       \<and> (toLowerCase a \<noteq> toLowerCase (claimer d) \<longrightarrow>
            isValidRefundAuthorization p d timeout ''refund'' sig
              = Inl (SignatureVerificationError ''Invalid signature!''))"
  using assms by (simp add: isValidRefundAuthorization_def Let_def)

text \<open>A refund authorization signed by the claimer of the sample swap is accepted.\<close>

theorem isValidRefundAuthorization_claimer_witness:
  "authGracePeriod \<le> 1700000400 - currentSeconds sampleProgram
   \<and> getRefundMessage sampleProgram sampleSwap ''refund'' 1700000400 = Inr [0x4d, 0x53, 0x47]
   \<and> verifyMessage sampleProgram [0x4d, 0x53, 0x47] ''signed-by-claimer'' = Inr claimerAddress
   \<and> toLowerCase claimerAddress = toLowerCase (claimer sampleSwap)
   \<and> isValidRefundAuthorization sampleProgram sampleSwap 1700000400 ''refund''
        ''signed-by-claimer'' = Inr [0x4d, 0x53, 0x47]"
proof -
  have h1: "authGracePeriod \<le> 1700000400 - currentSeconds sampleProgram"
    by (simp add: sampleProgram_facts authGracePeriod_def)
  have h2: "getRefundMessage sampleProgram sampleSwap ''refund'' 1700000400
      = Inr [0x4d, 0x53, 0x47]"
    by (simp add: getRefundMessage_def sampleProgram_facts)
  have h3: "verifyMessage sampleProgram [0x4d, 0x53, 0x47] ''signed-by-claimer''
      = Inr claimerAddress"
    by (simp add: sampleProgram_facts)
  show ?thesis
    using isValidRefundAuthorization_claimer [OF h1 h2 h3] h1 h2 h3
    by (simp add: sampleSwap_fields)
qed

text \<open>
  Claim C1 as stated fails: a refund authorization with the right prefix and a timeout 400
  seconds ahead, whose signature recovers to the swap's offerer, is rejected with
  \<open>Invalid signature!\<close>.
\<close>

theorem isValidRefundAuthorization_counterexample:
  "verifyMessage sampleProgram [0x4d, 0x53, 0x47] ''signed-by-offerer'' = Inr (offerer sampleSwap)
   \<and> getRefundMessage sampleProgram sampleSwap ''refund'' 1700000400 = Inr [0x4d, 0x53, 0x47]
   \<and> authGracePeriod \<le> 1700000400 - currentSeconds sampleProgram
   \<and> isValidRefundAuthorization sampleProgram sampleSwap 1700000400 ''refund''
        ''signed-by-offerer'' = Inl (SignatureVerificationError ''Invalid signature!'')"
  by (simp add: isValidRefundAuthorization_def getRefundMessage_def Let_def sampleSwap_fields
      sampleProgram_facts authGracePeriod_def addresses_differ)

text \<open>
  Claim C4. For every swap record and every init authorization that passes the prefix,
  expiry and swap-expiry checks, and every claim-init authorization that passes the prefix
  and expiry checks, the verifier raises the signature verification error
  \<open>Invalid nonce!\<close> if and only if the contract's commitment value at the swap's payment
  hash differs from the index in the swap's data word (whatever the signature is).
\<close>

theorem nonce_check:
  assumes "authGracePeriod \<le> timeout - currentSeconds p"
  shows "(authGracePeriod + claimGracePeriod \<le> int (getExpiry d) - currentSeconds p \<longrightarrow>
           (isValidInitAuthorization p d timeout ''initialize'' sig n
                = Inl (SignatureVerificationError ''Invalid nonce!'')
              \<longleftrightarrow> unat (getCommitment p (paymentHash d)) \<noteq> getIndex d))
       \<and> (isValidClaimInitAuthorization p d timeout ''claim_initialize'' sig n
                = Inl (SignatureVerificationError ''Invalid nonce!'')
              \<longleftrightarrow> unat (getCommitment p (paymentHash d)) \<noteq> getIndex d)"
  using assms
  by (auto simp add: isValidInitAuthorization_def isValidClaimInitAuthorization_def Let_def
      split: sum.splits)

text \<open>Commitment 7 against index 6: both verifiers reject with \<open>Invalid nonce!\<close>.\<close>

theorem nonce_check_witness:
  "authGracePeriod \<le> 1700000400 - currentSeconds sampleProgram
   \<and> authGracePeriod + claimGracePeriod
        \<le> int (getExpiry sampleSwap) - currentSeconds sampleProgram
   \<and> unat (getCommitment sampleProgram (paymentHash sampleSwap)) = 7
   \<and> getIndex sampleSwap = 6
   \<and> isValidInitAuthorization sampleProgram sampleSwap 1700000400 ''initialize''
        ''signed-by-offerer'' 6 = Inl (SignatureVerificationError ''Invalid nonce!'')
   \<and> isValidClaimInitAuthorization sampleProgram sampleSwap 1700000400 ''claim_initialize''
        ''signed-by-claimer'' 6 = Inl (SignatureVerificationError ''Invalid nonce!'')"
proof -
  have h: "authGracePeriod \<le> 1700000400 - currentSeconds sampleProgram"
    by (simp add: sampleProgram_facts authGracePeriod_def)
  have g: "authGracePeriod + claimGracePeriod
      \<le> int (getExpiry sampleSwap) - currentSeconds sampleProgram"
    by (simp add: sampleProgram_facts sampleSwap_fields authGracePeriod_def claimGracePeriod_def)
  show ?thesis
    using nonce_check [OF h, of sampleSwap "''signed-by-offerer''" 6]
      nonce_check [OF h, of sampleSwap "''signed-by-claimer''" 6] h g
    by (simp add: sampleProgram_facts sampleSwap_fields)
qed






end
